theory Spec2Isabelle
  imports Main "HOL-Library.Word"
begin

unbundle bit_operations_syntax

section \<open>The CLI daemon of src/host/posix/cli_daemon.cpp\<close>

text \<open>
  The class \<open>CliDaemon\<close> owns three descriptors and talks to the operating system through
  system calls. The embedding passes the object and the world explicitly: the world holds
  the chronological trace of everything the daemon did (system calls with their results,
  calls of the command consumer, log lines, process termination) and the current
  \<open>errno\<close>. What the operating system and the command consumer answer is not decided by
  this file: it is the parameter \<open>env\<close>, whose answers may depend on the whole history.
\<close>

subsection \<open>Data\<close>

type_synonym fd = int
type_synonym byte = "8 word"

text \<open>
  \<open>otbrError\<close> is declared in common/types.hpp, which is not among the sources: the
  enumerators cli_daemon.cpp names are kept by name, every other code is
  \<open>OTBR_ERROR_OTHER\<close>.
\<close>

datatype otbrError =
    OTBR_ERROR_NONE
  | OTBR_ERROR_ERRNO
  | OTBR_ERROR_INVALID_ARGS
  | OTBR_ERROR_INVALID_STATE
  | OTBR_ERROR_OTHER int

text \<open>
  The system calls of the file, each with the arguments the code passes.

  Modelled from the spec: \<open>SocketWithCloseExec\<close> is a function of utils/socket_utils.hpp,
  which is not among the sources. The spec says that it allocates a non-blocking,
  close-on-exec domain stream socket; here it is one call, answered by the environment
  like the system calls.
\<close>

datatype syscall =
    SysSocketWithCloseExec
    \<comment> \<open>\<open>SocketWithCloseExec(AF_UNIX, SOCK_STREAM, 0, kSocketNonBlock)\<close>\<close>
  | SysOpen string
    \<comment> \<open>\<open>open(path, O_CREAT | O_RDONLY | O_CLOEXEC, 0600)\<close>\<close>
  | SysFlock fd
    \<comment> \<open>\<open>flock(fd, LOCK_EX | LOCK_NB)\<close>\<close>
  | SysUnlink string
  | SysBind fd string
  | SysListen fd int
  | SysAccept fd
  | SysFcntlGetFd fd
  | SysFcntlSetFd fd int
  | SysSetsockoptNoSigpipe fd int
  | SysClose fd

text \<open>A system call fails (returns \<open>-1\<close> and sets \<open>errno\<close>) or returns a value \<open>\<ge> 0\<close>.\<close>

datatype sysret = Fail int | Ok nat

text \<open>\<open>read\<close> fails or delivers the bytes it stored in the buffer.\<close>

datatype readret = ReadFail int | ReadData "byte list"

datatype log_level = LogInfo | LogWarning

text \<open>What fills the \<open>%s\<close> of a message: \<open>strerror(errno)\<close> or \<open>otbrErrorString(error)\<close>.\<close>

datatype log_arg = NoArg | Strerror int | OtbrErrorString otbrError

datatype event =
    EvSys syscall sysret
  | EvRead fd nat readret
    \<comment> \<open>\<open>read(fd, buffer, count)\<close> and what it delivered\<close>
  | EvInput "byte list" otbrError
    \<comment> \<open>\<open>mDeps.InputCommandLine(buffer, length)\<close> and its result\<close>
  | EvAdopt fd
    \<comment> \<open>the assignment \<open>mSessionSocket = newSessionSocket\<close>\<close>
  | EvLog log_level string log_arg
  | EvDie log_arg
    \<comment> \<open>\<open>VerifyOrDie\<close> failed with this message: the process terminates\<close>

record world =
  trace :: "event list"
  errno :: int

record CliDaemon =
  mListenSocket :: fd
  mDaemonLock :: fd
  mSessionSocket :: fd

text \<open>
  The environment: the platform's constants, the answers of the operating system and the
  command consumer \<open>mDeps\<close> (a virtual method, so any function of the bytes).
  \<open>sizeof_sun_path\<close> is \<open>sizeof(sockaddr_un::sun_path)\<close>, \<open>kCliMaxLineLength\<close> is declared
  in cli_daemon.hpp, and \<open>have_SO_NOSIGPIPE\<close> says that the build is not for Linux and
  that \<open>SO_NOSIGPIPE\<close> is defined.
\<close>

record env =
  sizeof_sun_path :: nat
  kCliMaxLineLength :: nat
  have_SO_NOSIGPIPE :: bool
  os_call :: "event list \<Rightarrow> syscall \<Rightarrow> sysret"
  os_read :: "event list \<Rightarrow> fd \<Rightarrow> nat \<Rightarrow> readret"
  InputCommandLine :: "event list \<Rightarrow> byte list \<Rightarrow> otbrError"

text \<open>
  Modelled from the spec: \<open>MainloopContext\<close> is declared outside cli_daemon.cpp. It carries
  the readiness of this iteration: the set of readable and the set of erroring descriptors;
  \<open>FD_ISSET\<close> is membership.
\<close>

record MainloopContext =
  mReadFdSet :: "fd set"
  mErrorFdSet :: "fd set"

text \<open>
  A member function either returns, with its result, the object and the world, or the
  process has terminated in \<open>VerifyOrDie\<close>.
\<close>

datatype 'a outcome = Die world | Done 'a CliDaemon world

fun world_of :: "'a outcome \<Rightarrow> world" where
  "world_of (Die w) = w"
| "world_of (Done _ _ w) = w"

subsection \<open>The world\<close>

fun ret :: "sysret \<Rightarrow> int" where
  "ret (Fail _) = - 1"
| "ret (Ok n) = int n"

definition sys :: "env \<Rightarrow> syscall \<Rightarrow> world \<Rightarrow> sysret \<times> world" where
  "sys e c w =
     (let r = os_call e (trace w) c
      in (r, w\<lparr>trace := trace w @ [EvSys c r],
                errno := (case r of Fail n \<Rightarrow> n | Ok _ \<Rightarrow> errno w)\<rparr>))"

text \<open>\<open>read\<close> never delivers more than \<open>count\<close> bytes.\<close>

definition sys_read :: "env \<Rightarrow> fd \<Rightarrow> nat \<Rightarrow> world \<Rightarrow> readret \<times> world" where
  "sys_read e f count w =
     (let r = (case os_read e (trace w) f count of
                 ReadFail n \<Rightarrow> ReadFail n
               | ReadData bs \<Rightarrow> ReadData (take count bs))
      in (r, w\<lparr>trace := trace w @ [EvRead f count r],
                errno := (case r of ReadFail n \<Rightarrow> n | ReadData _ \<Rightarrow> errno w)\<rparr>))"

text \<open>
  Modelled from the spec: the macros \<open>VerifyOrDie\<close>, \<open>VerifyOrExit\<close> and \<open>SuccessOrExit\<close>
  and the logging macros are defined outside cli_daemon.cpp. A failing
  \<open>VerifyOrDie(cond, message)\<close> is fatal: it reports the message and the process
  terminates, which is \<open>die\<close>. \<open>VerifyOrExit\<close> and \<open>SuccessOrExit\<close> run their action and
  jump to the label \<open>exit\<close>; they are the conditionals of the definitions below. A logging
  macro adds one line to the log.
\<close>

definition log_event :: "event \<Rightarrow> world \<Rightarrow> world" where
  "log_event ev w = w\<lparr>trace := trace w @ [ev]\<rparr>"

definition otbrLogInfo :: "string \<Rightarrow> log_arg \<Rightarrow> world \<Rightarrow> world" where
  "otbrLogInfo msg arg = log_event (EvLog LogInfo msg arg)"

definition otbrLogWarning :: "string \<Rightarrow> log_arg \<Rightarrow> world \<Rightarrow> world" where
  "otbrLogWarning msg arg = log_event (EvLog LogWarning msg arg)"

definition die :: "log_arg \<Rightarrow> world \<Rightarrow> 'a outcome" where
  "die msg w = Die (log_event (EvDie msg) w)"

text \<open>What a C function sees of a \<open>std::string\<close> through \<open>c_str()\<close>.\<close>

definition c_str :: "string \<Rightarrow> string" where
  "c_str s = takeWhile (\<lambda>c. c \<noteq> CHR 0x00) s"

subsection \<open>The member functions\<close>

definition kDefaultNetIfName :: string where "kDefaultNetIfName = ''wpan0''"
definition kSocketBaseName :: string where "kSocketBaseName = ''/run/openthread-''"
definition kSocketSuffix :: string where "kSocketSuffix = ''.sock''"
definition kSocketLockSuffix :: string where "kSocketLockSuffix = ''.lock''"

definition FD_CLOEXEC :: int where "FD_CLOEXEC = 1"

text \<open>\<open>sun_path\<close> is an array, so its size is at least 1 and the subtraction does not wrap.\<close>

definition kMaxSocketFilenameLength :: "env \<Rightarrow> nat" where
  "kMaxSocketFilenameLength e = sizeof_sun_path e - 1"

text \<open>\<open>None\<close>: the \<open>VerifyOrDie\<close> on the length has failed.\<close>

definition GetSocketFilename :: "env \<Rightarrow> string \<Rightarrow> string \<Rightarrow> string option" where
  "GetSocketFilename e aNetIfName aSuffix =
     (let netIfName = (if aNetIfName = [] then kDefaultNetIfName else aNetIfName);
          fileName = kSocketBaseName @ netIfName @ aSuffix
      in if length fileName \<le> kMaxSocketFilenameLength e then Some fileName else None)"

definition CliDaemon_ctor :: CliDaemon where
  "CliDaemon_ctor = \<lparr>mListenSocket = - 1, mDaemonLock = - 1, mSessionSocket = - 1\<rparr>"

definition world0 :: world where
  "world0 = \<lparr>trace = [], errno = 0\<rparr>"

definition Clear :: "env \<Rightarrow> CliDaemon \<Rightarrow> world \<Rightarrow> CliDaemon \<times> world" where
  "Clear e d w =
     (if mSessionSocket d \<noteq> - 1
      then (d\<lparr>mSessionSocket := - 1\<rparr>, snd (sys e (SysClose (mSessionSocket d)) w))
      else (d, w))"

definition CreateListenSocket ::
  "env \<Rightarrow> string \<Rightarrow> CliDaemon \<Rightarrow> world \<Rightarrow> otbrError outcome" where
  "CreateListenSocket e aNetIfName d w =
     (case sys e SysSocketWithCloseExec w of (r1, w1) \<Rightarrow>
      let d1 = d\<lparr>mListenSocket := ret r1\<rparr> in
      if mListenSocket d1 = - 1 then Done OTBR_ERROR_ERRNO d1 w1
      else
        (case GetSocketFilename e aNetIfName kSocketLockSuffix of
           None \<Rightarrow> die (OtbrErrorString OTBR_ERROR_INVALID_ARGS) w1
         | Some lockfile \<Rightarrow>
            (case sys e (SysOpen (c_str lockfile)) w1 of (r2, w2) \<Rightarrow>
             let d2 = d1\<lparr>mDaemonLock := ret r2\<rparr> in
             if mDaemonLock d2 = - 1 then Done OTBR_ERROR_ERRNO d2 w2
             else
               (case sys e (SysFlock (mDaemonLock d2)) w2 of (r3, w3) \<Rightarrow>
                if ret r3 = - 1 then Done OTBR_ERROR_ERRNO d2 w3
                else
                  (case GetSocketFilename e aNetIfName kSocketSuffix of
                     None \<Rightarrow> die (OtbrErrorString OTBR_ERROR_INVALID_ARGS) w3
                   | Some socketfile \<Rightarrow>
                      let sun_path = take (sizeof_sun_path e - 1) (c_str socketfile);
                          w4 = snd (sys e (SysUnlink sun_path) w3)
                      in
                        (case sys e (SysBind (mListenSocket d2) sun_path) w4 of (r5, w5) \<Rightarrow>
                         if ret r5 = - 1 then Done OTBR_ERROR_ERRNO d2 w5
                         else Done OTBR_ERROR_NONE d2 w5))))))"

text \<open>The code at the label \<open>exit\<close> of \<open>InitializeSessionSocket\<close>.\<close>

definition InitializeSessionSocket_exit ::
  "env \<Rightarrow> int \<Rightarrow> CliDaemon \<Rightarrow> world \<Rightarrow> CliDaemon \<times> world" where
  "InitializeSessionSocket_exit e flag d w =
     (if flag = - 1
      then Clear e d
             (otbrLogWarning ''Failed to initialize session socket: %s'' (Strerror (errno w)) w)
      else (d, w))"

text \<open>Lines 143 to 146: the old session is cleared, the new descriptor is adopted.\<close>

definition InitializeSessionSocket_adopt ::
  "env \<Rightarrow> int \<Rightarrow> fd \<Rightarrow> CliDaemon \<Rightarrow> world \<Rightarrow> CliDaemon \<times> world" where
  "InitializeSessionSocket_adopt e flag newSessionSocket d w =
     (case Clear e d w of (d1, w1) \<Rightarrow>
      let d2 = d1\<lparr>mSessionSocket := newSessionSocket\<rparr>;
          w2 = log_event (EvAdopt newSessionSocket) w1;
          w3 = otbrLogInfo ''Session socket is ready'' NoArg w2
      in InitializeSessionSocket_exit e flag d2 w3)"

definition InitializeSessionSocket :: "env \<Rightarrow> CliDaemon \<Rightarrow> world \<Rightarrow> CliDaemon \<times> world" where
  "InitializeSessionSocket e d w =
     (case sys e (SysAccept (mListenSocket d)) w of (r1, w1) \<Rightarrow>
      let newSessionSocket = ret r1 in
      if newSessionSocket = - 1 then InitializeSessionSocket_exit e (- 1) d w1
      else
        (case sys e (SysFcntlGetFd newSessionSocket) w1 of (r2, w2) \<Rightarrow>
         if ret r2 = - 1
         then InitializeSessionSocket_exit e (- 1) d (snd (sys e (SysClose newSessionSocket) w2))
         else
           (case sys e (SysFcntlSetFd newSessionSocket (ret r2 OR FD_CLOEXEC)) w2 of (r3, w3) \<Rightarrow>
            if ret r3 = - 1
            then InitializeSessionSocket_exit e (- 1) d
                   (snd (sys e (SysClose newSessionSocket) w3))
            else if have_SO_NOSIGPIPE e
            then
              (case sys e (SysSetsockoptNoSigpipe newSessionSocket (ret r3)) w3 of (r4, w4) \<Rightarrow>
               if ret r4 = - 1
               then InitializeSessionSocket_exit e (- 1) d
                      (snd (sys e (SysClose newSessionSocket) w4))
               else InitializeSessionSocket_adopt e (ret r4) newSessionSocket d w4)
            else InitializeSessionSocket_adopt e (ret r3) newSessionSocket d w3)))"

definition Init :: "env \<Rightarrow> string \<Rightarrow> CliDaemon \<Rightarrow> world \<Rightarrow> otbrError outcome" where
  "Init e aNetIfName d w =
     (if mListenSocket d \<noteq> - 1 then Done OTBR_ERROR_INVALID_STATE d w
      else
        (case CreateListenSocket e aNetIfName d w of
           Die w1 \<Rightarrow> Die w1
         | Done error d1 w1 \<Rightarrow>
            if error \<noteq> OTBR_ERROR_NONE then Done error d1 w1
            else
              (case sys e (SysListen (mListenSocket d1) 1) w1 of (r, w2) \<Rightarrow>
               if ret r = - 1 then Done OTBR_ERROR_ERRNO d1 w2
               else Done OTBR_ERROR_NONE d1 w2)))"

definition Deinit :: "env \<Rightarrow> CliDaemon \<Rightarrow> world \<Rightarrow> CliDaemon \<times> world" where
  "Deinit e d w = Clear e d w"

text \<open>
  \<open>Process\<close>, lines 210 to 213: the listen descriptor. Lines 215 to 242: the session
  descriptor. The length handed to the consumer is a \<open>uint16_t\<close>.
\<close>

definition Process_listen ::
  "env \<Rightarrow> MainloopContext \<Rightarrow> CliDaemon \<Rightarrow> world \<Rightarrow> CliDaemon \<times> world" where
  "Process_listen e aContext d w =
     (if mListenSocket d \<in> mReadFdSet aContext then InitializeSessionSocket e d w
      else (d, w))"

definition Process_session ::
  "env \<Rightarrow> MainloopContext \<Rightarrow> CliDaemon \<Rightarrow> world \<Rightarrow> unit outcome" where
  "Process_session e aContext d w =
     (if mSessionSocket d = - 1 then Done () d w
      else if mSessionSocket d \<in> mErrorFdSet aContext
      then (case Clear e d w of (d1, w1) \<Rightarrow> Done () d1 w1)
      else if mSessionSocket d \<in> mReadFdSet aContext
      then
        (case sys_read e (mSessionSocket d) (kCliMaxLineLength e) w of
           (ReadFail _, w1) \<Rightarrow> die (Strerror (errno w1)) w1
         | (ReadData buffer, w1) \<Rightarrow>
            let received = length buffer in
            if received = 0
            then (case Clear e d (otbrLogInfo ''Session socket closed by peer'' NoArg w1) of
                    (d1, w2) \<Rightarrow> Done () d1 w2)
            else
              let aBuf = take (received mod 65536) buffer;
                  error = InputCommandLine e (trace w1) aBuf;
                  w2 = log_event (EvInput aBuf error) w1
              in if error \<noteq> OTBR_ERROR_NONE
                 then Done () d
                        (otbrLogWarning ''Failed to input command line, error:%s''
                           (OtbrErrorString error) w2)
                 else Done () d w2)
      else Done () d w)"

definition Process :: "env \<Rightarrow> MainloopContext \<Rightarrow> CliDaemon \<Rightarrow> world \<Rightarrow> unit outcome" where
  "Process e aContext d w =
     (if mListenSocket d = - 1 then Done () d w
      else if mListenSocket d \<in> mErrorFdSet aContext then die (Strerror (errno w)) w
      else
        (case Process_listen e aContext d w of (d1, w1) \<Rightarrow>
         Process_session e aContext d1 w1))"

subsection \<open>Runs of the endpoint\<close>

text \<open>
  The owner of the object calls its public member functions in any order; a run ends when
  the process terminates.
\<close>

datatype op = OpInit string | OpDeinit | OpProcess MainloopContext

fun exec_op :: "env \<Rightarrow> op \<Rightarrow> CliDaemon \<Rightarrow> world \<Rightarrow> unit outcome" where
  "exec_op e (OpInit aNetIfName) d w =
     (case Init e aNetIfName d w of Die w1 \<Rightarrow> Die w1 | Done _ d1 w1 \<Rightarrow> Done () d1 w1)"
| "exec_op e OpDeinit d w = (case Deinit e d w of (d1, w1) \<Rightarrow> Done () d1 w1)"
| "exec_op e (OpProcess aContext) d w = Process e aContext d w"

fun run :: "env \<Rightarrow> op list \<Rightarrow> CliDaemon \<Rightarrow> world \<Rightarrow> unit outcome" where
  "run e [] d w = Done () d w"
| "run e (x # xs) d w =
     (case exec_op e x d w of Die w1 \<Rightarrow> Die w1 | Done _ d1 w1 \<Rightarrow> run e xs d1 w1)"

text \<open>
  The active sessions after a trace: the descriptors that were adopted as session and have
  not been closed since (\<open>close\<close> releases the descriptor whatever it returns).
\<close>

fun active_step :: "fd list \<Rightarrow> event \<Rightarrow> fd list" where
  "active_step a (EvAdopt n) = a @ [n]"
| "active_step a (EvSys (SysClose f) _) = remove1 f a"
| "active_step a _ = a"

definition active_sessions :: "event list \<Rightarrow> fd list" where
  "active_sessions t = foldl active_step [] t"

text \<open>Never more than one active session from \<open>a\<close> on, at any point of the events.\<close>

fun at_most_one :: "fd list \<Rightarrow> event list \<Rightarrow> bool" where
  "at_most_one a [] = (length a \<le> 1)"
| "at_most_one a (ev # es) = (length a \<le> 1 \<and> at_most_one (active_step a ev) es)"

definition session_of :: "CliDaemon \<Rightarrow> fd list" where
  "session_of d = (if mSessionSocket d = - 1 then [] else [mSessionSocket d])"

text \<open>
  The byte spans of the positive-length reads of a trace, and the byte spans handed to the
  command consumer, in order.
\<close>

fun reads_of :: "event list \<Rightarrow> byte list list" where
  "reads_of [] = []"
| "reads_of (EvRead f k (ReadData bs) # es) = (if bs = [] then reads_of es else bs # reads_of es)"
| "reads_of (_ # es) = reads_of es"

fun inputs_of :: "event list \<Rightarrow> byte list list" where
  "inputs_of [] = []"
| "inputs_of (EvInput bs r # es) = bs # inputs_of es"
| "inputs_of (_ # es) = inputs_of es"

subsection \<open>Observations on traces\<close>

text \<open>What happened between two worlds, the later one extending the earlier one.\<close>

definition new_events :: "world \<Rightarrow> world \<Rightarrow> event list" where
  "new_events w w' = drop (length (trace w)) (trace w')"

subsection \<open>Concrete environments\<close>

text \<open>
  A Linux host (\<open>sun_path\<close> has 108 bytes) on which every call succeeds: the socket is
  descriptor 3, the lock file descriptor 4, an accepted connection descriptor 5, and a read
  delivers the six bytes of \<open>state\<close> and a newline.
\<close>

definition state_line :: "byte list" where
  "state_line = [0x73, 0x74, 0x61, 0x74, 0x65, 0x0A]"

definition os_all_ok :: "event list \<Rightarrow> syscall \<Rightarrow> sysret" where
  "os_all_ok t c =
     (case c of
        SysSocketWithCloseExec \<Rightarrow> Ok 3
      | SysOpen _ \<Rightarrow> Ok 4
      | SysAccept _ \<Rightarrow> Ok 5
      | _ \<Rightarrow> Ok 0)"

definition env_linux :: env where
  "env_linux =
     \<lparr>sizeof_sun_path = 108, kCliMaxLineLength = 640, have_SO_NOSIGPIPE = False,
      os_call = os_all_ok,
      os_read = (\<lambda>t f n. ReadData state_line),
      InputCommandLine = (\<lambda>t bs. OTBR_ERROR_NONE)\<rparr>"

text \<open>An endpoint after a successful \<open>Init\<close> on that host.\<close>

definition d_listening :: CliDaemon where
  "d_listening = \<lparr>mListenSocket = 3, mDaemonLock = 4, mSessionSocket = - 1\<rparr>"

text \<open>The calls whose success \<open>Init\<close> needs, and those a new session needs.\<close>

fun is_setup_call :: "syscall \<Rightarrow> bool" where
  "is_setup_call SysSocketWithCloseExec = True"
| "is_setup_call (SysOpen _) = True"
| "is_setup_call (SysFlock _) = True"
| "is_setup_call (SysBind _ _) = True"
| "is_setup_call (SysListen _ _) = True"
| "is_setup_call _ = False"

fun is_accept_call :: "syscall \<Rightarrow> bool" where
  "is_accept_call (SysAccept _) = True"
| "is_accept_call (SysFcntlGetFd _) = True"
| "is_accept_call (SysFcntlSetFd _ _) = True"
| "is_accept_call (SysSetsockoptNoSigpipe _ _) = True"
| "is_accept_call _ = False"

text \<open>The same host when another process holds the lock: \<open>flock\<close> fails with \<open>EWOULDBLOCK\<close>.\<close>

definition EWOULDBLOCK :: int where "EWOULDBLOCK = 11"

definition env_lock_held :: env where
  "env_lock_held =
     env_linux\<lparr>os_call := (\<lambda>t c. case c of SysFlock _ \<Rightarrow> Fail EWOULDBLOCK | _ \<Rightarrow> os_all_ok t c)\<rparr>"

text \<open>The same host when \<open>accept\<close> fails with \<open>ECONNABORTED\<close>.\<close>

definition ECONNABORTED :: int where "ECONNABORTED = 103"

definition env_accept_fails :: env where
  "env_accept_fails =
     env_linux\<lparr>os_call := (\<lambda>t c. case c of SysAccept _ \<Rightarrow> Fail ECONNABORTED | _ \<Rightarrow> os_all_ok t c)\<rparr>"

text \<open>The same host when the peer has closed, and when \<open>read\<close> fails with \<open>ECONNRESET\<close>.\<close>

definition env_peer_closed :: env where
  "env_peer_closed = env_linux\<lparr>os_read := (\<lambda>t f n. ReadData [])\<rparr>"

definition ECONNRESET :: int where "ECONNRESET = 104"

definition env_read_fails :: env where
  "env_read_fails = env_linux\<lparr>os_read := (\<lambda>t f n. ReadFail ECONNRESET)\<rparr>"

text \<open>The same host with a consumer that rejects every line.\<close>

definition env_consumer_fails :: env where
  "env_consumer_fails = env_linux\<lparr>InputCommandLine := (\<lambda>t bs. OTBR_ERROR_INVALID_ARGS)\<rparr>"

text \<open>An endpoint with an active session on descriptor 5, and one on descriptor 6.\<close>

definition d_session :: CliDaemon where
  "d_session = \<lparr>mListenSocket = 3, mDaemonLock = 4, mSessionSocket = 5\<rparr>"

definition d_session6 :: CliDaemon where
  "d_session6 = \<lparr>mListenSocket = 3, mDaemonLock = 4, mSessionSocket = 6\<rparr>"

text \<open>An interface name of 100 characters: its paths have 121.\<close>

definition long_name :: string where
  "long_name = replicate 100 (CHR ''a'')"

section \<open>Properties\<close>

subsection \<open>Auxiliary facts\<close>

lemmas world_defs = sys_def sys_read_def log_event_def otbrLogInfo_def otbrLogWarning_def
  die_def new_events_def

lemmas name_defs = GetSocketFilename_def kSocketBaseName_def kSocketSuffix_def
  kSocketLockSuffix_def kDefaultNetIfName_def kMaxSocketFilenameLength_def c_str_def

lemmas env_defs = env_linux_def os_all_ok_def env_lock_held_def env_accept_fails_def
  env_peer_closed_def env_read_fails_def env_consumer_fails_def

lemmas state_defs = CliDaemon_ctor_def world0_def d_listening_def d_session_def d_session6_def

lemma GetSocketFilename_lock_Some:
  assumes "length (kSocketBaseName @ (if aNetIfName = [] then kDefaultNetIfName else aNetIfName)
                     @ kSocketSuffix) \<le> kMaxSocketFilenameLength e"
  shows "GetSocketFilename e aNetIfName kSocketLockSuffix \<noteq> None"
    and "GetSocketFilename e aNetIfName kSocketSuffix \<noteq> None"
  using assms
  by (simp_all add: GetSocketFilename_def kSocketLockSuffix_def kSocketSuffix_def Let_def)

lemma GetSocketFilename_lock_None:
  assumes "kMaxSocketFilenameLength e <
             length (kSocketBaseName @ (if aNetIfName = [] then kDefaultNetIfName else aNetIfName)
                     @ kSocketSuffix)"
  shows "GetSocketFilename e aNetIfName kSocketLockSuffix = None"
  using assms
  by (simp add: GetSocketFilename_def kSocketLockSuffix_def kSocketSuffix_def Let_def)

lemma CreateListenSocket_succeeds:
  assumes len: "length (kSocketBaseName @ (if aNetIfName = [] then kDefaultNetIfName else aNetIfName)
                     @ kSocketSuffix) \<le> kMaxSocketFilenameLength e"
    and ok: "\<And>t c. is_setup_call c \<Longrightarrow> ret (os_call e t c) \<noteq> - 1"
  shows "\<exists>d1 w1. CreateListenSocket e aNetIfName d w = Done OTBR_ERROR_NONE d1 w1 \<and>
           mListenSocket d1 \<noteq> - 1 \<and> mSessionSocket d1 = mSessionSocket d"
  using GetSocketFilename_lock_Some [OF len] ok
  by (auto simp: CreateListenSocket_def world_defs Let_def split: option.splits)

lemma InitializeSessionSocket_listen [simp]:
  "mListenSocket (fst (InitializeSessionSocket e d w)) = mListenSocket d"
  by (simp add: InitializeSessionSocket_def InitializeSessionSocket_exit_def
      InitializeSessionSocket_adopt_def Clear_def Let_def split: prod.splits)

lemma Process_listen_listen [simp]:
  "mListenSocket (fst (Process_listen e c d w)) = mListenSocket d"
  by (simp add: Process_listen_def)

text \<open>No member function but \<open>CreateListenSocket\<close> writes the listen or the lock descriptor.\<close>

lemma Process_listen_lock:
  "mDaemonLock (fst (Process_listen e c d w)) = mDaemonLock d"
  by (simp add: Process_listen_def InitializeSessionSocket_def InitializeSessionSocket_exit_def
      InitializeSessionSocket_adopt_def Clear_def Let_def split_beta)

lemma Process_session_frame:
  "Process_session e c d w = Done u d' w' \<Longrightarrow>
   mListenSocket d' = mListenSocket d \<and> mDaemonLock d' = mDaemonLock d"
  by (auto simp: Process_session_def Clear_def die_def Let_def split_beta
      split: if_splits readret.splits)

lemma Process_frame:
  assumes "Process e c d w = Done u d' w'"
  shows "mListenSocket d' = mListenSocket d \<and> mDaemonLock d' = mDaemonLock d"
proof (cases "mListenSocket d = - 1 \<or> mListenSocket d \<in> mErrorFdSet c")
  case True
  with assms show ?thesis by (auto simp: Process_def die_def split: if_splits)
next
  case False
  obtain d1 w1 where l: "Process_listen e c d w = (d1, w1)" by (cases "Process_listen e c d w")
  have "mListenSocket (fst (Process_listen e c d w)) = mListenSocket d"
    "mDaemonLock (fst (Process_listen e c d w)) = mDaemonLock d"
    by (simp_all add: Process_listen_lock)
  then have 1: "mListenSocket d1 = mListenSocket d \<and> mDaemonLock d1 = mDaemonLock d"
    unfolding l by simp
  have "Process_session e c d1 w1 = Done u d' w'"
    using assms False l by (simp add: Process_def)
  from Process_session_frame [OF this] 1 show ?thesis by simp
qed

lemma exec_op_frame:
  assumes "mListenSocket d \<noteq> - 1" and "exec_op e x d w = Done u d' w'"
  shows "mListenSocket d' = mListenSocket d \<and> mDaemonLock d' = mDaemonLock d"
proof (cases x)
  case (OpInit n)
  with assms show ?thesis by (auto simp: Init_def)
next
  case OpDeinit
  with assms show ?thesis by (auto simp: Deinit_def Clear_def split: if_splits)
next
  case (OpProcess c)
  with assms Process_frame [of e c d w u d' w'] show ?thesis by simp
qed

lemma run_frame:
  "mListenSocket d \<noteq> - 1 \<Longrightarrow> run e xs d w = Done u d' w' \<Longrightarrow>
   mListenSocket d' = mListenSocket d \<and> mDaemonLock d' = mDaemonLock d"
proof (induction xs arbitrary: d w)
  case Nil
  then show ?case by simp
next
  case (Cons x xs)
  show ?case
  proof (cases "exec_op e x d w")
    case (Die w1)
    with Cons.prems show ?thesis by simp
  next
    case (Done v d1 w1)
    from exec_op_frame [OF Cons.prems(1) Done]
    have 1: "mListenSocket d1 = mListenSocket d \<and> mDaemonLock d1 = mDaemonLock d" .
    with Cons.prems have 2: "mListenSocket d1 \<noteq> - 1" by simp
    from Cons.prems Done have "run e xs d1 w1 = Done u d' w'" by simp
    from Cons.IH [OF 2 this] 1 show ?thesis by simp
  qed
qed

subsection \<open>Endpoint creation\<close>

text \<open>
  C1, as the code has it. When the derived path is longer than
  \<open>kMaxSocketFilenameLength\<close>, \<open>CreateListenSocket\<close> never succeeds and makes exactly one
  system call, the allocation of the socket, which comes before the length check: when the
  allocation fails the function returns and the check is never reached, when it succeeds
  the check terminates the process. Neither \<open>open\<close> on the lock file nor \<open>unlink\<close> or
  \<open>bind\<close> on the socket path is reached, so no lock file and no socket file appears.
\<close>

theorem CreateListenSocket_path_too_long:
  assumes "kMaxSocketFilenameLength e <
             length (kSocketBaseName @ (if aNetIfName = [] then kDefaultNetIfName else aNetIfName)
                     @ kSocketSuffix)"
  shows "new_events w (world_of (CreateListenSocket e aNetIfName d w)) =
           (case os_call e (trace w) SysSocketWithCloseExec of
              Fail n \<Rightarrow> [EvSys SysSocketWithCloseExec (Fail n)]
            | Ok s \<Rightarrow> [EvSys SysSocketWithCloseExec (Ok s), EvDie (OtbrErrorString OTBR_ERROR_INVALID_ARGS)]) \<and>
         (\<forall>d' w'. CreateListenSocket e aNetIfName d w \<noteq> Done OTBR_ERROR_NONE d' w')"
  using GetSocketFilename_lock_None [OF assms]
  by (simp add: CreateListenSocket_def world_defs Let_def split: sysret.splits)

theorem CreateListenSocket_path_too_long_witness:
  "kMaxSocketFilenameLength env_linux <
     length (kSocketBaseName @ (if long_name = [] then kDefaultNetIfName else long_name)
             @ kSocketSuffix) \<and>
   new_events world0 (world_of (CreateListenSocket env_linux long_name CliDaemon_ctor world0)) =
     [EvSys SysSocketWithCloseExec (Ok 3), EvDie (OtbrErrorString OTBR_ERROR_INVALID_ARGS)]"
  using CreateListenSocket_path_too_long
    [of env_linux long_name world0 CliDaemon_ctor]
  by (simp add: name_defs env_defs state_defs long_name_def)

text \<open>
  C1 as stated fails: for the 100-character name on the Linux host the socket has been
  allocated (descriptor 3) when the length check terminates the process.
\<close>

theorem CreateListenSocket_socket_before_check:
  "kMaxSocketFilenameLength env_linux <
     length (kSocketBaseName @ (if long_name = [] then kDefaultNetIfName else long_name)
             @ kSocketSuffix) \<and>
   CreateListenSocket env_linux long_name CliDaemon_ctor world0 =
     Die \<lparr>trace = [EvSys SysSocketWithCloseExec (Ok 3), EvDie (OtbrErrorString OTBR_ERROR_INVALID_ARGS)], errno = 0\<rparr>"
  by (simp add: CreateListenSocket_def world_defs Let_def name_defs env_defs state_defs
      long_name_def)

subsection \<open>Init and Deinit\<close>

text \<open>
  C5. \<open>Init\<close> on an endpoint whose listen descriptor is valid returns
  \<open>OTBR_ERROR_INVALID_STATE\<close>; the object (listen, lock and session descriptor) and the
  world (so the trace: no system call is made) are what they were.
\<close>

theorem Init_twice_invalid_state:
  "mListenSocket d \<noteq> - 1 \<Longrightarrow> Init e aNetIfName d w = Done OTBR_ERROR_INVALID_STATE d w"
  by (simp add: Init_def)

theorem Init_twice_invalid_state_witness:
  "mListenSocket d_listening \<noteq> - 1 \<and>
   Init env_linux ''wpan0'' d_listening world0 = Done OTBR_ERROR_INVALID_STATE d_listening world0"
  using Init_twice_invalid_state [of d_listening env_linux "''wpan0''" world0]
  by (simp add: d_listening_def)


text \<open>
  C3, as the code has it. For a name whose path fits, on a host where the five set-up calls
  succeed, \<open>Init\<close> on an endpoint without listen descriptor succeeds and leaves a valid
  listen descriptor. From then on the endpoint stays initialized: after every sequence of
  \<open>Init\<close>, \<open>Deinit\<close> and \<open>Process\<close> calls that the process survives, the listen and the
  lock descriptor are what the first \<open>Init\<close> left, and \<open>Init\<close> fails with
  \<open>OTBR_ERROR_INVALID_STATE\<close>. That holds after \<open>Deinit\<close> too: \<open>Deinit\<close> closes an active
  session and changes the session descriptor only.
\<close>

theorem Init_once_then_invalid_state:
  assumes len: "length (kSocketBaseName @ (if aNetIfName = [] then kDefaultNetIfName else aNetIfName)
                     @ kSocketSuffix) \<le> kMaxSocketFilenameLength e"
    and ok: "\<And>t c. is_setup_call c \<Longrightarrow> ret (os_call e t c) \<noteq> - 1"
    and fresh: "mListenSocket d = - 1"
  shows "\<exists>d1 w1. Init e aNetIfName d w = Done OTBR_ERROR_NONE d1 w1 \<and>
           mListenSocket d1 \<noteq> - 1 \<and>
           Init e aNetIfName d1 w1 = Done OTBR_ERROR_INVALID_STATE d1 w1 \<and>
           (case Deinit e d1 w1 of (d2, w2) \<Rightarrow>
              d2 = d1\<lparr>mSessionSocket := - 1\<rparr> \<and>
              Init e aNetIfName d2 w2 = Done OTBR_ERROR_INVALID_STATE d2 w2) \<and>
           (\<forall>xs d2 w2 n. run e xs d1 w1 = Done () d2 w2 \<longrightarrow>
              mListenSocket d2 = mListenSocket d1 \<and> mDaemonLock d2 = mDaemonLock d1 \<and>
              Init e n d2 w2 = Done OTBR_ERROR_INVALID_STATE d2 w2 \<and>
              (case Deinit e d2 w2 of (d3, w3) \<Rightarrow>
                 d3 = d2\<lparr>mSessionSocket := - 1\<rparr> \<and>
                 (mSessionSocket d2 \<noteq> - 1 \<longrightarrow>
                    (\<exists>r. new_events w2 w3 = [EvSys (SysClose (mSessionSocket d2)) r])) \<and>
                 Init e n d3 w3 = Done OTBR_ERROR_INVALID_STATE d3 w3))"
proof -
  from CreateListenSocket_succeeds [OF len ok, of d w]
  obtain d1 w1 where c: "CreateListenSocket e aNetIfName d w = Done OTBR_ERROR_NONE d1 w1"
    and l: "mListenSocket d1 \<noteq> - 1" by blast
  have "ret (os_call e (trace w1) (SysListen (mListenSocket d1) 1)) \<noteq> - 1"
    using ok by simp
  with c l fresh have i: "Init e aNetIfName d w =
      Done OTBR_ERROR_NONE d1 (snd (sys e (SysListen (mListenSocket d1) 1) w1))"
    by (auto simp: Init_def world_defs Let_def split: sysret.splits)
  have later: "mListenSocket d2 = mListenSocket d1 \<and> mDaemonLock d2 = mDaemonLock d1 \<and>
              Init e n d2 w2 = Done OTBR_ERROR_INVALID_STATE d2 w2 \<and>
              (case Deinit e d2 w2 of (d3, w3) \<Rightarrow>
                 d3 = d2\<lparr>mSessionSocket := - 1\<rparr> \<and>
                 (mSessionSocket d2 \<noteq> - 1 \<longrightarrow>
                    (\<exists>r. new_events w2 w3 = [EvSys (SysClose (mSessionSocket d2)) r])) \<and>
                 Init e n d3 w3 = Done OTBR_ERROR_INVALID_STATE d3 w3)"
    if "run e xs d1 (snd (sys e (SysListen (mListenSocket d1) 1) w1)) = Done () d2 w2"
    for xs d2 w2 n
  proof -
    from run_frame [OF l that]
    have f: "mListenSocket d2 = mListenSocket d1 \<and> mDaemonLock d2 = mDaemonLock d1" .
    with l show ?thesis
      by (auto simp: Init_def Deinit_def Clear_def world_defs Let_def)
  qed
  from i l later show ?thesis
    by (auto simp: Init_def Deinit_def Clear_def)
qed

theorem Init_once_then_invalid_state_witness:
  "length (kSocketBaseName @ (if ''wpan0'' = [] then kDefaultNetIfName else ''wpan0'')
             @ kSocketSuffix) \<le> kMaxSocketFilenameLength env_linux \<and>
   mListenSocket CliDaemon_ctor = - 1 \<and>
   (\<exists>d1 w1. Init env_linux ''wpan0'' CliDaemon_ctor world0 = Done OTBR_ERROR_NONE d1 w1 \<and>
      mListenSocket d1 \<noteq> - 1 \<and>
      (\<exists>d2 w2. run env_linux [OpProcess \<lparr>mReadFdSet = {3}, mErrorFdSet = {}\<rparr>] d1 w1 =
                 Done () d2 w2 \<and>
         d2 = d_session \<and>
         Init env_linux ''wpan0'' d2 w2 = Done OTBR_ERROR_INVALID_STATE d2 w2 \<and>
         (case Deinit env_linux d2 w2 of (d3, w3) \<Rightarrow>
            d3 = d_listening \<and>
            new_events w2 w3 = [EvSys (SysClose 5) (Ok 0)] \<and>
            Init env_linux ''wpan0'' d3 w3 = Done OTBR_ERROR_INVALID_STATE d3 w3)))"
proof -
  have len: "length (kSocketBaseName @ (if ''wpan0'' = [] then kDefaultNetIfName else ''wpan0'')
             @ kSocketSuffix) \<le> kMaxSocketFilenameLength env_linux"
    by (simp add: name_defs env_defs)
  have ok: "is_setup_call c \<Longrightarrow> ret (os_call env_linux t c) \<noteq> - 1" for t c
    by (cases c) (simp_all add: env_defs)
  have fresh: "mListenSocket CliDaemon_ctor = - 1"
    by (simp add: state_defs)
  from Init_once_then_invalid_state [OF len ok fresh, of world0]
  obtain d1 w1 where i: "Init env_linux ''wpan0'' CliDaemon_ctor world0 = Done OTBR_ERROR_NONE d1 w1"
    and l: "mListenSocket d1 \<noteq> - 1"
    and later: "\<forall>xs d2 w2 n. run env_linux xs d1 w1 = Done () d2 w2 \<longrightarrow>
              mListenSocket d2 = mListenSocket d1 \<and> mDaemonLock d2 = mDaemonLock d1 \<and>
              Init env_linux n d2 w2 = Done OTBR_ERROR_INVALID_STATE d2 w2 \<and>
              (case Deinit env_linux d2 w2 of (d3, w3) \<Rightarrow>
                 d3 = d2\<lparr>mSessionSocket := - 1\<rparr> \<and>
                 (mSessionSocket d2 \<noteq> - 1 \<longrightarrow>
                    (\<exists>r. new_events w2 w3 = [EvSys (SysClose (mSessionSocket d2)) r])) \<and>
                 Init env_linux n d3 w3 = Done OTBR_ERROR_INVALID_STATE d3 w3)"
    by blast
  have d1: "d1 = d_listening"
    using i
    by (simp add: Init_def CreateListenSocket_def world_defs Let_def name_defs env_defs
        state_defs)
  obtain w2 where r: "run env_linux [OpProcess \<lparr>mReadFdSet = {3}, mErrorFdSet = {}\<rparr>] d1 w1 =
      Done () d_session w2"
    unfolding d1
    by (simp add: Process_def Process_listen_def Process_session_def InitializeSessionSocket_def
        InitializeSessionSocket_exit_def InitializeSessionSocket_adopt_def Clear_def world_defs
        Let_def env_defs state_defs FD_CLOEXEC_def)
  from later [rule_format, OF r, of "''wpan0''"] have a: "Init env_linux ''wpan0'' d_session w2 =
      Done OTBR_ERROR_INVALID_STATE d_session w2"
    and b: "case Deinit env_linux d_session w2 of (d3, w3) \<Rightarrow>
                 d3 = d_session\<lparr>mSessionSocket := - 1\<rparr> \<and>
                 (mSessionSocket d_session \<noteq> - 1 \<longrightarrow>
                    (\<exists>r. new_events w2 w3 = [EvSys (SysClose (mSessionSocket d_session)) r])) \<and>
                 Init env_linux ''wpan0'' d3 w3 = Done OTBR_ERROR_INVALID_STATE d3 w3"
    by simp_all
  have c: "case Deinit env_linux d_session w2 of (d3, w3) \<Rightarrow>
            d3 = d_listening \<and>
            new_events w2 w3 = [EvSys (SysClose 5) (Ok 0)] \<and>
            Init env_linux ''wpan0'' d3 w3 = Done OTBR_ERROR_INVALID_STATE d3 w3"
    using b
    by (auto simp: Deinit_def Clear_def world_defs Let_def env_defs state_defs)
  have "\<exists>d2 w2. run env_linux [OpProcess \<lparr>mReadFdSet = {3}, mErrorFdSet = {}\<rparr>] d1 w1 =
                 Done () d2 w2 \<and>
         d2 = d_session \<and>
         Init env_linux ''wpan0'' d2 w2 = Done OTBR_ERROR_INVALID_STATE d2 w2 \<and>
         (case Deinit env_linux d2 w2 of (d3, w3) \<Rightarrow>
            d3 = d_listening \<and>
            new_events w2 w3 = [EvSys (SysClose 5) (Ok 0)] \<and>
            Init env_linux ''wpan0'' d3 w3 = Done OTBR_ERROR_INVALID_STATE d3 w3)"
    using r a c by (intro exI [of _ d_session] exI [of _ w2]) simp
  with i l have "\<exists>d1 w1. Init env_linux ''wpan0'' CliDaemon_ctor world0 =
        Done OTBR_ERROR_NONE d1 w1 \<and>
      mListenSocket d1 \<noteq> - 1 \<and>
      (\<exists>d2 w2. run env_linux [OpProcess \<lparr>mReadFdSet = {3}, mErrorFdSet = {}\<rparr>] d1 w1 =
                 Done () d2 w2 \<and>
         d2 = d_session \<and>
         Init env_linux ''wpan0'' d2 w2 = Done OTBR_ERROR_INVALID_STATE d2 w2 \<and>
         (case Deinit env_linux d2 w2 of (d3, w3) \<Rightarrow>
            d3 = d_listening \<and>
            new_events w2 w3 = [EvSys (SysClose 5) (Ok 0)] \<and>
            Init env_linux ''wpan0'' d3 w3 = Done OTBR_ERROR_INVALID_STATE d3 w3))"
    by (intro exI [of _ d1] exI [of _ w1]) simp
  with len fresh show ?thesis by simp
qed

text \<open>
  C3 as stated fails: on the Linux host \<open>Init\<close> succeeds, and after \<open>Deinit\<close> the listen
  descriptor is still 3 and \<open>Init\<close> is rejected.
\<close>

theorem Init_after_Deinit_rejected:
  "(case Init env_linux ''wpan0'' CliDaemon_ctor world0 of
      Die _ \<Rightarrow> False
    | Done error d1 w1 \<Rightarrow>
        error = OTBR_ERROR_NONE \<and>
        (case Deinit env_linux d1 w1 of (d2, w2) \<Rightarrow>
           mListenSocket d2 = 3 \<and>
           Init env_linux ''wpan0'' d2 w2 = Done OTBR_ERROR_INVALID_STATE d2 w2))"
  by (simp add: Init_def Deinit_def Clear_def CreateListenSocket_def world_defs Let_def
      name_defs env_defs state_defs)

text \<open>
  C8. When \<open>Init\<close> on an endpoint without listen descriptor meets a failing \<open>flock\<close>
  (another process holds the lock), it returns \<open>OTBR_ERROR_ERRNO\<close>, which is not
  \<open>OTBR_ERROR_INVALID_STATE\<close>, and \<open>errno\<close> is the code \<open>flock\<close> failed with. All it did
  was to allocate its socket, open the lock file and try the lock: it made no \<open>unlink\<close>,
  \<open>bind\<close>, \<open>listen\<close> or \<open>close\<close>, so the socket file and the descriptors of the process
  that holds the lock are untouched.
\<close>

theorem Init_lock_contention:
  assumes "mListenSocket d = - 1"
    and "Init e aNetIfName d w = out"
    and "EvSys (SysFlock l) (Fail n) \<in> set (new_events w (world_of out))"
  shows "\<exists>s lockfile d' w'.
           out = Done OTBR_ERROR_ERRNO d' w' \<and>
           OTBR_ERROR_ERRNO \<noteq> OTBR_ERROR_INVALID_STATE \<and>
           errno w' = n \<and> mDaemonLock d' = l \<and> mSessionSocket d' = mSessionSocket d \<and>
           new_events w w' =
             [EvSys SysSocketWithCloseExec (Ok s), EvSys (SysOpen lockfile) (Ok (nat l)),
              EvSys (SysFlock l) (Fail n)]"
  using assms
  by (auto simp: Init_def CreateListenSocket_def world_defs Let_def
      split: sysret.splits option.splits if_splits)

theorem Init_lock_contention_witness:
  "mListenSocket CliDaemon_ctor = - 1 \<and>
   EvSys (SysFlock 4) (Fail EWOULDBLOCK)
     \<in> set (new_events world0 (world_of (Init env_lock_held ''wpan0'' CliDaemon_ctor world0))) \<and>
   Init env_lock_held ''wpan0'' CliDaemon_ctor world0 =
     Done OTBR_ERROR_ERRNO \<lparr>mListenSocket = 3, mDaemonLock = 4, mSessionSocket = - 1\<rparr>
       \<lparr>trace = [EvSys SysSocketWithCloseExec (Ok 3),
                 EvSys (SysOpen ''/run/openthread-wpan0.lock'') (Ok 4),
                 EvSys (SysFlock 4) (Fail EWOULDBLOCK)],
        errno = EWOULDBLOCK\<rparr>"
  using Init_lock_contention [where d = CliDaemon_ctor and e = env_lock_held
      and aNetIfName = "''wpan0''" and w = world0 and l = 4 and n = EWOULDBLOCK, OF _ refl]
  by (simp add: Init_def CreateListenSocket_def world_defs Let_def name_defs env_defs state_defs)

subsection \<open>Sessions\<close>

text \<open>
  C10. When \<open>accept\<close> fails, \<open>flag\<close> is still \<open>-1\<close> at the label \<open>exit\<close>, so the warning is
  logged and \<open>Clear\<close> runs: an active session is closed and the endpoint is left without
  session, although no connection was obtained.
\<close>

theorem InitializeSessionSocket_accept_fails:
  assumes "os_call e (trace w) (SysAccept (mListenSocket d)) = Fail n"
  shows "fst (InitializeSessionSocket e d w) = d\<lparr>mSessionSocket := - 1\<rparr> \<and>
         (\<exists>r. new_events w (snd (InitializeSessionSocket e d w)) =
            [EvSys (SysAccept (mListenSocket d)) (Fail n),
             EvLog LogWarning ''Failed to initialize session socket: %s'' (Strerror n)] @
            (if mSessionSocket d = - 1 then []
             else [EvSys (SysClose (mSessionSocket d)) r]))"
  using assms
  by (simp add: InitializeSessionSocket_def InitializeSessionSocket_exit_def Clear_def
      world_defs Let_def)

theorem InitializeSessionSocket_accept_fails_witness:
  "os_call env_accept_fails (trace world0) (SysAccept (mListenSocket d_session)) =
     Fail ECONNABORTED \<and>
   InitializeSessionSocket env_accept_fails d_session world0 =
     (d_listening,
      \<lparr>trace = [EvSys (SysAccept 3) (Fail ECONNABORTED),
                EvLog LogWarning ''Failed to initialize session socket: %s''
                  (Strerror ECONNABORTED),
                EvSys (SysClose 5) (Ok 0)],
       errno = ECONNABORTED\<rparr>)"
  using InitializeSessionSocket_accept_fails
    [of env_accept_fails world0 d_session ECONNABORTED]
  by (simp add: InitializeSessionSocket_def InitializeSessionSocket_exit_def Clear_def
      world_defs Let_def env_defs state_defs)

subsection \<open>Process\<close>

text \<open>
  C6. With a valid listen descriptor: when the listen descriptor is in the error set the
  process terminates. Otherwise, after the listen descriptor has been served, a session
  descriptor in the error set is closed and \<open>Process\<close> returns with no session; a session
  descriptor that is readable and whose \<open>read\<close> fails terminates the process.
\<close>

theorem Process_failures_bifurcated:
  assumes "mListenSocket d \<noteq> - 1"
  shows "(mListenSocket d \<in> mErrorFdSet aContext \<longrightarrow>
            Process e aContext d w = Die (w\<lparr>trace := trace w @ [EvDie (Strerror (errno w))]\<rparr>)) \<and>
         (mListenSocket d \<notin> mErrorFdSet aContext \<longrightarrow>
            (case Process_listen e aContext d w of (d1, w1) \<Rightarrow>
               (mSessionSocket d1 \<noteq> - 1 \<and> mSessionSocket d1 \<in> mErrorFdSet aContext \<longrightarrow>
                  (\<exists>w2 r. Process e aContext d w = Done () (d1\<lparr>mSessionSocket := - 1\<rparr>) w2 \<and>
                     new_events w1 w2 = [EvSys (SysClose (mSessionSocket d1)) r])) \<and>
               (mSessionSocket d1 \<noteq> - 1 \<and> mSessionSocket d1 \<notin> mErrorFdSet aContext \<and>
                mSessionSocket d1 \<in> mReadFdSet aContext \<longrightarrow>
                  (\<forall>n. os_read e (trace w1) (mSessionSocket d1) (kCliMaxLineLength e)
                         = ReadFail n \<longrightarrow>
                     (\<exists>w2. Process e aContext d w = Die w2 \<and>
                        new_events w1 w2 =
                          [EvRead (mSessionSocket d1) (kCliMaxLineLength e) (ReadFail n),
                           EvDie (Strerror n)])))))"
  using assms
  by (auto simp: Process_def Process_session_def Clear_def world_defs Let_def split: prod.splits)

theorem Process_failures_bifurcated_witness:
  "mListenSocket d_session \<noteq> - 1 \<and>
   Process env_linux \<lparr>mReadFdSet = {}, mErrorFdSet = {3}\<rparr> d_session world0 =
     Die \<lparr>trace = [EvDie (Strerror 0)], errno = 0\<rparr> \<and>
   Process env_linux \<lparr>mReadFdSet = {}, mErrorFdSet = {5}\<rparr> d_session world0 =
     Done () d_listening \<lparr>trace = [EvSys (SysClose 5) (Ok 0)], errno = 0\<rparr> \<and>
   Process env_read_fails \<lparr>mReadFdSet = {5}, mErrorFdSet = {}\<rparr> d_session world0 =
     Die \<lparr>trace = [EvRead 5 640 (ReadFail ECONNRESET), EvDie (Strerror ECONNRESET)],
          errno = ECONNRESET\<rparr>"
  using Process_failures_bifurcated
    [of d_session "\<lparr>mReadFdSet = {}, mErrorFdSet = {3}\<rparr>" env_linux world0]
    Process_failures_bifurcated
    [of d_session "\<lparr>mReadFdSet = {}, mErrorFdSet = {5}\<rparr>" env_linux world0]
    Process_failures_bifurcated
    [of d_session "\<lparr>mReadFdSet = {5}, mErrorFdSet = {}\<rparr>" env_read_fails world0]
  by (simp add: Process_def Process_listen_def Process_session_def Clear_def world_defs Let_def
      env_defs state_defs)

text \<open>
  C7. When the session descriptor is readable and \<open>read\<close> delivers no byte, \<open>Process\<close>
  returns (nothing is reported: an information line is logged), the session is closed and
  absent, and the listen descriptor is what it was. On a host where \<open>accept\<close> and the
  descriptor-flag calls succeed, the next time the listen descriptor is readable the
  endpoint calls \<open>accept\<close> on it and has the accepted connection as its session.
\<close>

theorem Process_peer_closed:
  assumes listen: "mListenSocket d \<noteq> - 1" "mListenSocket d \<notin> mErrorFdSet aContext"
    and step: "Process_listen e aContext d w = (d1, w1)"
    and session: "mSessionSocket d1 \<noteq> - 1" "mSessionSocket d1 \<notin> mErrorFdSet aContext"
      "mSessionSocket d1 \<in> mReadFdSet aContext"
    and eof: "os_read e (trace w1) (mSessionSocket d1) (kCliMaxLineLength e) = ReadData []"
    and later: "\<And>t c. is_accept_call c \<Longrightarrow> ret (os_call e t c) \<noteq> - 1"
      "mListenSocket d \<in> mReadFdSet aContext'"
  shows "\<exists>w2 r. Process e aContext d w = Done () (d1\<lparr>mSessionSocket := - 1\<rparr>) w2 \<and>
           mListenSocket (d1\<lparr>mSessionSocket := - 1\<rparr>) = mListenSocket d \<and>
           new_events w1 w2 =
             [EvRead (mSessionSocket d1) (kCliMaxLineLength e) (ReadData []),
              EvLog LogInfo ''Session socket closed by peer'' NoArg,
              EvSys (SysClose (mSessionSocket d1)) r] \<and>
           (case Process_listen e aContext' (d1\<lparr>mSessionSocket := - 1\<rparr>) w2 of (d3, w3) \<Rightarrow>
              mSessionSocket d3 = ret (os_call e (trace w2) (SysAccept (mListenSocket d))) \<and>
              mSessionSocket d3 \<noteq> - 1 \<and>
              hd (new_events w2 w3) =
                EvSys (SysAccept (mListenSocket d))
                  (os_call e (trace w2) (SysAccept (mListenSocket d))))"
proof -
  have l1: "mListenSocket d1 = mListenSocket d"
    using step Process_listen_listen [of e aContext d w] by simp
  have p: "Process e aContext d w = Process_session e aContext d1 w1"
    using listen step by (simp add: Process_def)
  have "\<exists>w2 r. Process_session e aContext d1 w1 = Done () (d1\<lparr>mSessionSocket := - 1\<rparr>) w2 \<and>
           new_events w1 w2 =
             [EvRead (mSessionSocket d1) (kCliMaxLineLength e) (ReadData []),
              EvLog LogInfo ''Session socket closed by peer'' NoArg,
              EvSys (SysClose (mSessionSocket d1)) r]"
    using session eof by (simp add: Process_session_def Clear_def world_defs Let_def)
  then obtain w2 r
    where a: "Process_session e aContext d1 w1 = Done () (d1\<lparr>mSessionSocket := - 1\<rparr>) w2"
      and b: "new_events w1 w2 =
             [EvRead (mSessionSocket d1) (kCliMaxLineLength e) (ReadData []),
              EvLog LogInfo ''Session socket closed by peer'' NoArg,
              EvSys (SysClose (mSessionSocket d1)) r]" by blast
  have c: "(case Process_listen e aContext' (d1\<lparr>mSessionSocket := - 1\<rparr>) w2 of (d3, w3) \<Rightarrow>
              mSessionSocket d3 = ret (os_call e (trace w2) (SysAccept (mListenSocket d))) \<and>
              mSessionSocket d3 \<noteq> - 1 \<and>
              hd (new_events w2 w3) =
                EvSys (SysAccept (mListenSocket d))
                  (os_call e (trace w2) (SysAccept (mListenSocket d))))"
    using later l1
    by (simp add: Process_listen_def InitializeSessionSocket_def InitializeSessionSocket_exit_def
        InitializeSessionSocket_adopt_def Clear_def world_defs Let_def split: prod.splits)
  show ?thesis using p a b c l1 by auto
qed

theorem Process_peer_closed_witness:
  "Process_listen env_peer_closed \<lparr>mReadFdSet = {6}, mErrorFdSet = {}\<rparr> d_session6 world0 =
     (d_session6, world0) \<and>
   os_read env_peer_closed (trace world0) (mSessionSocket d_session6)
     (kCliMaxLineLength env_peer_closed) = ReadData [] \<and>
   (\<exists>w2. Process env_peer_closed \<lparr>mReadFdSet = {6}, mErrorFdSet = {}\<rparr> d_session6 world0 =
            Done () d_listening w2 \<and>
          new_events world0 w2 =
            [EvRead 6 640 (ReadData []), EvLog LogInfo ''Session socket closed by peer'' NoArg,
             EvSys (SysClose 6) (Ok 0)] \<and>
          mSessionSocket
            (fst (Process_listen env_peer_closed \<lparr>mReadFdSet = {3}, mErrorFdSet = {}\<rparr>
                    d_listening w2)) = 5)"
proof -
  have ok: "is_accept_call c \<Longrightarrow> ret (os_call env_peer_closed t c) \<noteq> - 1" for t c
    by (cases c) (simp_all add: env_defs)
  have step: "Process_listen env_peer_closed \<lparr>mReadFdSet = {6}, mErrorFdSet = {}\<rparr>
                d_session6 world0 = (d_session6, world0)"
    by (simp add: Process_listen_def state_defs)
  have eof: "os_read env_peer_closed (trace world0) (mSessionSocket d_session6)
     (kCliMaxLineLength env_peer_closed) = ReadData []"
    by (simp add: env_defs)
  have d: "d_session6\<lparr>mSessionSocket := - 1\<rparr> = d_listening"
    by (simp add: state_defs)
  have "\<exists>w2 r. Process env_peer_closed \<lparr>mReadFdSet = {6}, mErrorFdSet = {}\<rparr> d_session6 world0 =
       Done () d_listening w2 \<and>
     new_events world0 w2 =
       [EvRead 6 640 (ReadData []), EvLog LogInfo ''Session socket closed by peer'' NoArg,
        EvSys (SysClose 6) r] \<and>
     mSessionSocket (fst (Process_listen env_peer_closed \<lparr>mReadFdSet = {3}, mErrorFdSet = {}\<rparr>
        d_listening w2)) = 5"
    using Process_peer_closed [where e = env_peer_closed and d = d_session6 and w = world0
      and aContext = "\<lparr>mReadFdSet = {6}, mErrorFdSet = {}\<rparr>"
      and aContext' = "\<lparr>mReadFdSet = {3}, mErrorFdSet = {}\<rparr>", OF _ _ step _ _ _ eof ok]
    by (simp add: d state_defs env_defs split: prod.splits) (metis fst_conv surj_pair)
  then obtain w2 r where
    p: "Process env_peer_closed \<lparr>mReadFdSet = {6}, mErrorFdSet = {}\<rparr> d_session6 world0 =
       Done () d_listening w2"
    and n: "new_events world0 w2 =
       [EvRead 6 640 (ReadData []), EvLog LogInfo ''Session socket closed by peer'' NoArg,
        EvSys (SysClose 6) r]"
    and a: "mSessionSocket (fst (Process_listen env_peer_closed
        \<lparr>mReadFdSet = {3}, mErrorFdSet = {}\<rparr> d_listening w2)) = 5"
    by blast
  have "r = Ok 0"
    using p n
    by (auto simp: Process_def Process_listen_def Process_session_def Clear_def world_defs
        Let_def env_defs state_defs)
  with p n a ok eof step show ?thesis
    by blast
qed

subsection \<open>Traces of the member functions\<close>

lemma trace_sys [simp]: "trace (snd (sys e c w)) = trace w @ [EvSys c (fst (sys e c w))]"
  by (simp add: sys_def Let_def)

lemma trace_sys_read [simp]:
  "trace (snd (sys_read e f k w)) = trace w @ [EvRead f k (fst (sys_read e f k w))]"
  by (simp add: sys_read_def Let_def)

lemma trace_log_event [simp]: "trace (log_event ev w) = trace w @ [ev]"
  by (simp add: log_event_def)

lemmas log_defs = otbrLogInfo_def otbrLogWarning_def die_def

lemma sys_read_length:
  "fst (sys_read e f k w) = ReadData bs \<Longrightarrow> length bs \<le> k"
  by (auto simp: sys_read_def Let_def split: readret.splits)

subsection \<open>One session at a time\<close>

lemma at_most_one_append:
  "at_most_one a (xs @ ys) = (at_most_one a xs \<and> at_most_one (foldl active_step a xs) ys)"
  by (induction xs arbitrary: a) (auto, (cases ys; simp)+)

lemma at_most_one_take:
  "at_most_one a es \<Longrightarrow> length (foldl active_step a (take k es)) \<le> 1"
proof (induction es arbitrary: a k)
  case Nil
  then show ?case by simp
next
  case (Cons x xs)
  then show ?case by (cases k) auto
qed

lemma Clear_sessions:
  "\<exists>es. trace (snd (Clear e d w)) = trace w @ es \<and> at_most_one (session_of d) es \<and>
     foldl active_step (session_of d) es = [] \<and> mSessionSocket (fst (Clear e d w)) = - 1"
  by (simp add: Clear_def session_of_def)

lemma InitializeSessionSocket_sessions:
  "\<exists>es. trace (snd (InitializeSessionSocket e d w)) = trace w @ es \<and>
     at_most_one (session_of d) es \<and>
     foldl active_step (session_of d) es = session_of (fst (InitializeSessionSocket e d w))"
  by (simp add: InitializeSessionSocket_def InitializeSessionSocket_exit_def
      InitializeSessionSocket_adopt_def Clear_def session_of_def log_defs Let_def split_beta)

lemma Process_session_sessions:
  "\<exists>es. trace (world_of (Process_session e c d w)) = trace w @ es \<and>
     at_most_one (session_of d) es \<and>
     (\<forall>d' w'. Process_session e c d w = Done () d' w' \<longrightarrow>
        foldl active_step (session_of d) es = session_of d')"
  by (auto simp: Process_session_def Clear_def session_of_def log_defs Let_def split_beta
      split: readret.splits)

lemma CreateListenSocket_sessions:
  "\<exists>es. trace (world_of (CreateListenSocket e n d w)) = trace w @ es \<and>
     at_most_one (session_of d) es \<and> foldl active_step (session_of d) es = session_of d \<and>
     (\<forall>r d' w'. CreateListenSocket e n d w = Done r d' w' \<longrightarrow>
        mSessionSocket d' = mSessionSocket d)"
  by (auto simp: CreateListenSocket_def session_of_def log_defs Let_def split_beta
      split: option.splits)

lemma Init_sessions:
  "\<exists>es. trace (world_of (Init e n d w)) = trace w @ es \<and>
     at_most_one (session_of d) es \<and>
     (\<forall>r d' w'. Init e n d w = Done r d' w' \<longrightarrow>
        foldl active_step (session_of d) es = session_of d')"
proof -
  from CreateListenSocket_sessions [of e n d w]
  obtain es where es: "trace (world_of (CreateListenSocket e n d w)) = trace w @ es"
    "at_most_one (session_of d) es" "foldl active_step (session_of d) es = session_of d"
    "\<forall>r d' w'. CreateListenSocket e n d w = Done r d' w' \<longrightarrow>
        mSessionSocket d' = mSessionSocket d" by blast
  show ?thesis
  proof (cases "mListenSocket d \<noteq> - 1")
    case True
    then show ?thesis by (simp add: Init_def session_of_def)
  next
    case False
    show ?thesis
    proof (cases "CreateListenSocket e n d w")
      case (Die w1)
      with es False show ?thesis by (simp add: Init_def)
    next
      case (Done r d1 w1)
      with es have s: "session_of d1 = session_of d" by (simp add: session_of_def)
      show ?thesis
      proof (cases "r = OTBR_ERROR_NONE")
        case True
        have "at_most_one (session_of d)
                (es @ [EvSys (SysListen (mListenSocket d1) 1)
                         (fst (sys e (SysListen (mListenSocket d1) 1) w1))])"
          "foldl active_step (session_of d)
                (es @ [EvSys (SysListen (mListenSocket d1) 1)
                         (fst (sys e (SysListen (mListenSocket d1) 1) w1))]) = session_of d"
          using es by (simp_all add: at_most_one_append session_of_def)
        with Done es False True s show ?thesis
          by (intro exI [of _ "es @ [EvSys (SysListen (mListenSocket d1) 1)
                         (fst (sys e (SysListen (mListenSocket d1) 1) w1))]"])
            (simp add: Init_def split_beta)
      next
        case f: False
        with Done es False s show ?thesis by (auto simp: Init_def)
      qed
    qed
  qed
qed

lemma Process_sessions:
  "\<exists>es. trace (world_of (Process e c d w)) = trace w @ es \<and>
     at_most_one (session_of d) es \<and>
     (\<forall>d' w'. Process e c d w = Done () d' w' \<longrightarrow>
        foldl active_step (session_of d) es = session_of d')"
proof -
  consider "mListenSocket d = - 1" | "mListenSocket d \<noteq> - 1" "mListenSocket d \<in> mErrorFdSet c"
    | "mListenSocket d \<noteq> - 1" "mListenSocket d \<notin> mErrorFdSet c" by blast
  then show ?thesis
  proof cases
    case 1
    then show ?thesis by (simp add: Process_def session_of_def)
  next
    case 2
    then show ?thesis by (simp add: Process_def session_of_def log_defs)
  next
    case 3
    obtain d1 w1 where l: "Process_listen e c d w = (d1, w1)" by (cases "Process_listen e c d w")
    have "\<exists>es. trace w1 = trace w @ es \<and> at_most_one (session_of d) es \<and>
       foldl active_step (session_of d) es = session_of d1"
    proof (cases "mListenSocket d \<in> mReadFdSet c")
      case True
      with l InitializeSessionSocket_sessions [of e d w] show ?thesis
        by (simp add: Process_listen_def)
    next
      case False
      with l show ?thesis by (simp add: Process_listen_def session_of_def)
    qed
    then obtain es1 where 1: "trace w1 = trace w @ es1" "at_most_one (session_of d) es1"
      "foldl active_step (session_of d) es1 = session_of d1" by blast
    from Process_session_sessions [of e c d1 w1]
    obtain es2 where 2: "trace (world_of (Process_session e c d1 w1)) = trace w1 @ es2"
      "at_most_one (session_of d1) es2"
      "\<forall>d' w'. Process_session e c d1 w1 = Done () d' w' \<longrightarrow>
        foldl active_step (session_of d1) es2 = session_of d'" by blast
    have p: "Process e c d w = Process_session e c d1 w1"
      using 3 l by (simp add: Process_def)
    show ?thesis
      using 1 2 unfolding p
      by (intro exI [of _ "es1 @ es2"]) (simp add: at_most_one_append)
  qed
qed

lemma exec_op_sessions:
  "\<exists>es. trace (world_of (exec_op e x d w)) = trace w @ es \<and>
     at_most_one (session_of d) es \<and>
     (\<forall>d' w'. exec_op e x d w = Done () d' w' \<longrightarrow>
        foldl active_step (session_of d) es = session_of d')"
proof (cases x)
  case (OpInit n)
  from Init_sessions [of e n d w] show ?thesis
    unfolding OpInit by (auto split: outcome.splits)
next
  case OpDeinit
  from Clear_sessions [of e d w] show ?thesis
    unfolding OpDeinit by (auto simp: Deinit_def session_of_def split: prod.splits)
next
  case (OpProcess c)
  from Process_sessions [of e c d w] show ?thesis
    unfolding OpProcess by simp
qed

lemma run_sessions:
  "active_sessions (trace w) = session_of d \<Longrightarrow> at_most_one [] (trace w) \<Longrightarrow>
   at_most_one [] (trace (world_of (run e xs d w)))"
proof (induction xs arbitrary: d w)
  case Nil
  then show ?case by simp
next
  case (Cons x xs)
  from exec_op_sessions [of e x d w]
  obtain es where es: "trace (world_of (exec_op e x d w)) = trace w @ es"
    "at_most_one (session_of d) es"
    "\<forall>d' w'. exec_op e x d w = Done () d' w' \<longrightarrow>
        foldl active_step (session_of d) es = session_of d'" by blast
  show ?case
  proof (cases "exec_op e x d w")
    case (Die w1)
    with es Cons.prems show ?thesis
      by (simp add: at_most_one_append active_sessions_def)
  next
    case (Done u d1 w1)
    with es Cons.prems have "active_sessions (trace w1) = session_of d1"
      "at_most_one [] (trace w1)"
      by (simp_all add: at_most_one_append active_sessions_def)
    from Cons.IH [OF this] Done show ?thesis by simp
  qed
qed

lemma run_prefix_sessions:
  "length (active_sessions (take k (trace (world_of (run e xs CliDaemon_ctor world0))))) \<le> 1"
proof -
  have "at_most_one [] (trace (world_of (run e xs CliDaemon_ctor world0)))"
    by (rule run_sessions) (simp_all add: active_sessions_def session_of_def state_defs)
  then show ?thesis
    unfolding active_sessions_def by (rule at_most_one_take)
qed

lemma InitializeSessionSocket_adopts:
  assumes "EvAdopt n \<in> set (new_events w (snd (InitializeSessionSocket e d w)))"
  shows "fst (InitializeSessionSocket e d w) = d\<lparr>mSessionSocket := n\<rparr> \<and>
      (\<exists>pre r. new_events w (snd (InitializeSessionSocket e d w)) =
         pre @ (if mSessionSocket d = - 1 then [] else [EvSys (SysClose (mSessionSocket d)) r])
           @ [EvAdopt n, EvLog LogInfo ''Session socket is ready'' NoArg] \<and>
         EvAdopt n \<notin> set pre \<and> (\<forall>f r'. EvSys (SysClose f) r' \<notin> set pre))"
  using assms
  by (auto simp: InitializeSessionSocket_def InitializeSessionSocket_exit_def
      InitializeSessionSocket_adopt_def Clear_def new_events_def log_defs Let_def split_beta
      split: if_splits)

text \<open>
  C2. Along every run of the public member functions from the constructed object, at every
  point of the trace (so also between two system calls of one member function), at most one
  descriptor is adopted as session and not yet closed. And whenever
  \<open>InitializeSessionSocket\<close> adopts a descriptor \<open>n\<close> (every call on the way succeeded), it
  ends with the new session \<open>n\<close>, and the \<open>close\<close> of the prior session, if there was
  one, is the event just before the adoption.
\<close>

theorem at_most_one_active_session:
  "length (active_sessions (take k (trace (world_of (run e xs CliDaemon_ctor world0))))) \<le> 1 \<and>
   (EvAdopt n \<in> set (new_events w (snd (InitializeSessionSocket e d w))) \<longrightarrow>
      fst (InitializeSessionSocket e d w) = d\<lparr>mSessionSocket := n\<rparr> \<and>
      (\<exists>pre r. new_events w (snd (InitializeSessionSocket e d w)) =
         pre @ (if mSessionSocket d = - 1 then [] else [EvSys (SysClose (mSessionSocket d)) r])
           @ [EvAdopt n, EvLog LogInfo ''Session socket is ready'' NoArg] \<and>
         EvAdopt n \<notin> set pre \<and> (\<forall>f r'. EvSys (SysClose f) r' \<notin> set pre)))"
  using run_prefix_sessions [of k e xs] InitializeSessionSocket_adopts [of n w e d]
  by blast

theorem at_most_one_active_session_witness:
  "EvAdopt 5 \<in> set (new_events world0 (snd (InitializeSessionSocket env_linux d_session6 world0))) \<and>
   InitializeSessionSocket env_linux d_session6 world0 =
     (d_session,
      \<lparr>trace = [EvSys (SysAccept 3) (Ok 5), EvSys (SysFcntlGetFd 5) (Ok 0),
                EvSys (SysFcntlSetFd 5 1) (Ok 0), EvSys (SysClose 6) (Ok 0), EvAdopt 5,
                EvLog LogInfo ''Session socket is ready'' NoArg],
       errno = 0\<rparr>) \<and>
   length (active_sessions (take 11 (trace (world_of
     (run env_linux
        [OpInit ''wpan0'', OpProcess \<lparr>mReadFdSet = {3}, mErrorFdSet = {}\<rparr>,
         OpProcess \<lparr>mReadFdSet = {3}, mErrorFdSet = {}\<rparr>]
        CliDaemon_ctor world0))))) \<le> 1"
  using at_most_one_active_session
    [of 11 env_linux "[OpInit ''wpan0'', OpProcess \<lparr>mReadFdSet = {3}, mErrorFdSet = {}\<rparr>,
         OpProcess \<lparr>mReadFdSet = {3}, mErrorFdSet = {}\<rparr>]" 5 world0 d_session6]
  by (simp add: InitializeSessionSocket_def InitializeSessionSocket_exit_def
      InitializeSessionSocket_adopt_def Clear_def world_defs Let_def env_defs state_defs
      FD_CLOEXEC_def)

subsection \<open>The order of the steps of Process\<close>






subsection \<open>What reaches the command consumer\<close>

lemma reads_of_append: "reads_of (xs @ ys) = reads_of xs @ reads_of ys"
  by (induction xs rule: reads_of.induct) auto

lemma inputs_of_append: "inputs_of (xs @ ys) = inputs_of xs @ inputs_of ys"
  by (induction xs rule: inputs_of.induct) auto

lemma Clear_io:
  "\<exists>es. trace (snd (Clear e d w)) = trace w @ es \<and> inputs_of es = [] \<and> reads_of es = []"
  by (simp add: Clear_def)

lemma InitializeSessionSocket_io:
  "\<exists>es. trace (snd (InitializeSessionSocket e d w)) = trace w @ es \<and>
     inputs_of es = [] \<and> reads_of es = []"
  by (simp add: InitializeSessionSocket_def InitializeSessionSocket_exit_def
      InitializeSessionSocket_adopt_def Clear_def log_defs Let_def split_beta)

lemma Process_session_io:
  assumes "kCliMaxLineLength e \<le> 65535"
  shows "\<exists>es. trace (world_of (Process_session e c d w)) = trace w @ es \<and>
     inputs_of es = reads_of es"
proof -
  have "take (length bs mod 65536) bs = bs"
    if "fst (sys_read e (mSessionSocket d) (kCliMaxLineLength e) w) = ReadData bs" for bs
    using sys_read_length [OF that] assms by simp
  then show ?thesis
    by (auto simp: Process_session_def Clear_def log_defs Let_def split_beta
      split: readret.splits)
qed

lemma CreateListenSocket_io:
  "\<exists>es. trace (world_of (CreateListenSocket e n d w)) = trace w @ es \<and>
     inputs_of es = [] \<and> reads_of es = []"
  by (auto simp: CreateListenSocket_def log_defs Let_def split_beta split: option.splits)

lemma Init_io:
  "\<exists>es. trace (world_of (Init e n d w)) = trace w @ es \<and> inputs_of es = [] \<and> reads_of es = []"
proof -
  from CreateListenSocket_io [of e n d w]
  obtain es where es: "trace (world_of (CreateListenSocket e n d w)) = trace w @ es"
    "inputs_of es = []" "reads_of es = []" by blast
  then show ?thesis
    by (cases "CreateListenSocket e n d w")
      (auto simp: Init_def split_beta inputs_of_append reads_of_append)
qed

lemma Process_io:
  assumes "kCliMaxLineLength e \<le> 65535"
  shows "\<exists>es. trace (world_of (Process e c d w)) = trace w @ es \<and> inputs_of es = reads_of es"
proof -
  consider "mListenSocket d = - 1" | "mListenSocket d \<noteq> - 1" "mListenSocket d \<in> mErrorFdSet c"
    | "mListenSocket d \<noteq> - 1" "mListenSocket d \<notin> mErrorFdSet c" by blast
  then show ?thesis
  proof cases
    case 1
    then show ?thesis by (simp add: Process_def)
  next
    case 2
    then show ?thesis by (simp add: Process_def log_defs)
  next
    case 3
    obtain d1 w1 where l: "Process_listen e c d w = (d1, w1)" by (cases "Process_listen e c d w")
    have "\<exists>es. trace w1 = trace w @ es \<and> inputs_of es = [] \<and> reads_of es = []"
    proof (cases "mListenSocket d \<in> mReadFdSet c")
      case True
      with l InitializeSessionSocket_io [of e d w] show ?thesis
        by (simp add: Process_listen_def)
    next
      case False
      with l show ?thesis by (simp add: Process_listen_def)
    qed
    then obtain es1 where 1: "trace w1 = trace w @ es1" "inputs_of es1 = []" "reads_of es1 = []"
      by blast
    from Process_session_io [OF assms, of c d1 w1]
    obtain es2 where 2: "trace (world_of (Process_session e c d1 w1)) = trace w1 @ es2"
      "inputs_of es2 = reads_of es2" by blast
    have p: "Process e c d w = Process_session e c d1 w1"
      using 3 l by (simp add: Process_def)
    show ?thesis
      using 1 2 unfolding p
      by (intro exI [of _ "es1 @ es2"]) (simp add: inputs_of_append reads_of_append)
  qed
qed

lemma exec_op_io:
  assumes "kCliMaxLineLength e \<le> 65535"
  shows "\<exists>es. trace (world_of (exec_op e x d w)) = trace w @ es \<and> inputs_of es = reads_of es"
proof (cases x)
  case (OpInit n)
  from Init_io [of e n d w] show ?thesis
    unfolding OpInit by (auto split: outcome.splits)
next
  case OpDeinit
  from Clear_io [of e d w] show ?thesis
    unfolding OpDeinit by (auto simp: Deinit_def split: prod.splits)
next
  case (OpProcess c)
  from Process_io [OF assms, of c d w] show ?thesis
    unfolding OpProcess by simp
qed

lemma run_io:
  assumes "kCliMaxLineLength e \<le> 65535"
  shows "\<exists>es. trace (world_of (run e xs d w)) = trace w @ es \<and> inputs_of es = reads_of es"
proof (induction xs arbitrary: d w)
  case Nil
  then show ?case by simp
next
  case (Cons x xs)
  from exec_op_io [OF assms, of x d w]
  obtain es where es: "trace (world_of (exec_op e x d w)) = trace w @ es"
    "inputs_of es = reads_of es" by blast
  show ?case
  proof (cases "exec_op e x d w")
    case (Die w1)
    with es show ?thesis by simp
  next
    case (Done u d1 w1)
    from Cons.IH [of d1 w1]
    obtain es' where "trace (world_of (run e xs d1 w1)) = trace w1 @ es'"
      "inputs_of es' = reads_of es'" by blast
    with es Done show ?thesis
      by (intro exI [of _ "es @ es'"]) (simp add: inputs_of_append reads_of_append)
  qed
qed

text \<open>
  C4, for a buffer of at most 65535 bytes (the length reaches the consumer as a
  \<open>uint16_t\<close>). Along every run of the public member functions, from any state, the byte
  spans handed to the command consumer are the byte spans of the positive-length reads, one
  call for each read, in the same order and with the same bytes. In one \<open>Process\<close>: when the
  session descriptor is read and \<open>read\<close> delivers the bytes \<open>bs\<close>, not none, the next
  event is the one call of the consumer with \<open>bs\<close>; a result other than
  \<open>OTBR_ERROR_NONE\<close> adds a warning line and nothing else; the object is what it was after
  the listen descriptor was served, so the session stays open.
\<close>

theorem Process_forwards_reads:
  assumes "kCliMaxLineLength e \<le> 65535"
  shows "inputs_of (new_events w (world_of (run e xs d w))) =
           reads_of (new_events w (world_of (run e xs d w))) \<and>
    (\<forall>d1 w1 bs. mListenSocket d \<noteq> - 1 \<and> mListenSocket d \<notin> mErrorFdSet c \<and>
        Process_listen e c d w = (d1, w1) \<and>
        mSessionSocket d1 \<noteq> - 1 \<and> mSessionSocket d1 \<notin> mErrorFdSet c \<and>
        mSessionSocket d1 \<in> mReadFdSet c \<and>
        fst (sys_read e (mSessionSocket d1) (kCliMaxLineLength e) w1) = ReadData bs \<and> bs \<noteq> [] \<longrightarrow>
       (\<exists>w2 r. Process e c d w = Done () d1 w2 \<and>
          new_events w1 w2 =
            [EvRead (mSessionSocket d1) (kCliMaxLineLength e) (ReadData bs), EvInput bs r] @
            (if r \<noteq> OTBR_ERROR_NONE
             then [EvLog LogWarning ''Failed to input command line, error:%s''
                     (OtbrErrorString r)]
             else [])))"
proof (intro conjI allI impI)
  from run_io [OF assms, of xs d w]
  show "inputs_of (new_events w (world_of (run e xs d w))) =
           reads_of (new_events w (world_of (run e xs d w)))"
    by (auto simp: new_events_def)
next
  fix d1 w1 bs
  assume a: "mListenSocket d \<noteq> - 1 \<and> mListenSocket d \<notin> mErrorFdSet c \<and>
        Process_listen e c d w = (d1, w1) \<and>
        mSessionSocket d1 \<noteq> - 1 \<and> mSessionSocket d1 \<notin> mErrorFdSet c \<and>
        mSessionSocket d1 \<in> mReadFdSet c \<and>
        fst (sys_read e (mSessionSocket d1) (kCliMaxLineLength e) w1) = ReadData bs \<and> bs \<noteq> []"
  then have t: "take (length bs mod 65536) bs = bs"
    using sys_read_length [of e "mSessionSocket d1" "kCliMaxLineLength e" w1 bs] assms by simp
  have p: "Process e c d w = Process_session e c d1 w1"
    using a by (simp add: Process_def)
  show "\<exists>w2 r. Process e c d w = Done () d1 w2 \<and>
          new_events w1 w2 =
            [EvRead (mSessionSocket d1) (kCliMaxLineLength e) (ReadData bs), EvInput bs r] @
            (if r \<noteq> OTBR_ERROR_NONE
             then [EvLog LogWarning ''Failed to input command line, error:%s''
                     (OtbrErrorString r)]
             else [])"
    unfolding p using a t
    by (auto simp: Process_session_def log_defs new_events_def Let_def split_beta
        split: readret.splits)
qed

theorem Process_forwards_reads_witness:
  "kCliMaxLineLength env_consumer_fails \<le> 65535 \<and>
   Process env_consumer_fails \<lparr>mReadFdSet = {5}, mErrorFdSet = {}\<rparr> d_session world0 =
     Done () d_session
       \<lparr>trace = [EvRead 5 640 (ReadData state_line),
                 EvInput state_line OTBR_ERROR_INVALID_ARGS,
                 EvLog LogWarning ''Failed to input command line, error:%s''
                   (OtbrErrorString OTBR_ERROR_INVALID_ARGS)],
        errno = 0\<rparr> \<and>
   inputs_of (new_events world0 (world_of
     (run env_consumer_fails
        [OpProcess \<lparr>mReadFdSet = {5}, mErrorFdSet = {}\<rparr>,
         OpProcess \<lparr>mReadFdSet = {5}, mErrorFdSet = {}\<rparr>] d_session world0))) =
     [state_line, state_line]"
  using Process_forwards_reads
    [of env_consumer_fails world0
      "[OpProcess \<lparr>mReadFdSet = {5}, mErrorFdSet = {}\<rparr>,
        OpProcess \<lparr>mReadFdSet = {5}, mErrorFdSet = {}\<rparr>]" d_session
      "\<lparr>mReadFdSet = {5}, mErrorFdSet = {}\<rparr>"]
  by (simp add: Process_def Process_listen_def Process_session_def world_defs
      Let_def env_defs state_defs state_line_def)

end
